theory Spec2Isabelle
  imports Complex_Main
begin

section \<open>Tensor elements\<close>

text \<open>
  The elements of a torch tensor are IEEE-754 floating-point numbers. The model keeps the
  three special values and computes on finite values exactly: a finite element is a real
  number, there is no rounding, no overflow and no underflow, and the sign of a zero is not
  kept (a zero divisor counts as \<open>+0\<close>). The special values follow IEEE-754:
  \<open>log 0 = -inf\<close>, \<open>0 * inf = NaN\<close>, \<open>inf - inf = NaN\<close>, \<open>exp (-inf) = 0\<close>,
  \<open>sqrt\<close> of a negative number or of \<open>-inf\<close> is \<open>NaN\<close>, and \<open>NaN\<close> propagates.
\<close>

datatype fl = Fin real | PInf | NInf | NaN

fun is_finite :: "fl \<Rightarrow> bool" where
  "is_finite (Fin a) = True"
| "is_finite PInf = False"
| "is_finite NInf = False"
| "is_finite NaN = False"

fun fneg :: "fl \<Rightarrow> fl" where
  "fneg (Fin a) = Fin (- a)"
| "fneg PInf = NInf"
| "fneg NInf = PInf"
| "fneg NaN = NaN"

fun fadd :: "fl \<Rightarrow> fl \<Rightarrow> fl" where
  "fadd (Fin a) (Fin b) = Fin (a + b)"
| "fadd (Fin a) PInf = PInf"
| "fadd (Fin a) NInf = NInf"
| "fadd (Fin a) NaN = NaN"
| "fadd PInf (Fin b) = PInf"
| "fadd PInf PInf = PInf"
| "fadd PInf NInf = NaN"
| "fadd PInf NaN = NaN"
| "fadd NInf (Fin b) = NInf"
| "fadd NInf PInf = NaN"
| "fadd NInf NInf = NInf"
| "fadd NInf NaN = NaN"
| "fadd NaN b = NaN"

definition fsub :: "fl \<Rightarrow> fl \<Rightarrow> fl" where
  "fsub a b = fadd a (fneg b)"

fun fmul :: "fl \<Rightarrow> fl \<Rightarrow> fl" where
  "fmul (Fin a) (Fin b) = Fin (a * b)"
| "fmul (Fin a) PInf = (if a = 0 then NaN else if 0 < a then PInf else NInf)"
| "fmul (Fin a) NInf = (if a = 0 then NaN else if 0 < a then NInf else PInf)"
| "fmul (Fin a) NaN = NaN"
| "fmul PInf (Fin b) = (if b = 0 then NaN else if 0 < b then PInf else NInf)"
| "fmul PInf PInf = PInf"
| "fmul PInf NInf = NInf"
| "fmul PInf NaN = NaN"
| "fmul NInf (Fin b) = (if b = 0 then NaN else if 0 < b then NInf else PInf)"
| "fmul NInf PInf = NInf"
| "fmul NInf NInf = PInf"
| "fmul NInf NaN = NaN"
| "fmul NaN b = NaN"

fun fdiv :: "fl \<Rightarrow> fl \<Rightarrow> fl" where
  "fdiv (Fin a) (Fin b) =
     (if b \<noteq> 0 then Fin (a / b)
      else if a = 0 then NaN else if 0 < a then PInf else NInf)"
| "fdiv (Fin a) PInf = Fin 0"
| "fdiv (Fin a) NInf = Fin 0"
| "fdiv (Fin a) NaN = NaN"
| "fdiv PInf (Fin b) = (if 0 \<le> b then PInf else NInf)"
| "fdiv PInf PInf = NaN"
| "fdiv PInf NInf = NaN"
| "fdiv PInf NaN = NaN"
| "fdiv NInf (Fin b) = (if 0 \<le> b then NInf else PInf)"
| "fdiv NInf PInf = NaN"
| "fdiv NInf NInf = NaN"
| "fdiv NInf NaN = NaN"
| "fdiv NaN b = NaN"

fun fexp :: "fl \<Rightarrow> fl" where
  "fexp (Fin a) = Fin (exp a)"
| "fexp PInf = PInf"
| "fexp NInf = Fin 0"
| "fexp NaN = NaN"

fun flog :: "fl \<Rightarrow> fl" where
  "flog (Fin a) = (if 0 < a then Fin (ln a) else if a = 0 then NInf else NaN)"
| "flog PInf = PInf"
| "flog NInf = NaN"
| "flog NaN = NaN"

fun fsqrt :: "fl \<Rightarrow> fl" where
  "fsqrt (Fin a) = (if 0 \<le> a then Fin (sqrt a) else NaN)"
| "fsqrt PInf = PInf"
| "fsqrt NInf = NaN"
| "fsqrt NaN = NaN"

text \<open>\<open>torch.maximum\<close> and the reduction \<open>torch.max\<close> propagate \<open>NaN\<close>.\<close>

fun fmaximum :: "fl \<Rightarrow> fl \<Rightarrow> fl" where
  "fmaximum (Fin a) (Fin b) = Fin (max a b)"
| "fmaximum (Fin a) PInf = PInf"
| "fmaximum (Fin a) NInf = Fin a"
| "fmaximum (Fin a) NaN = NaN"
| "fmaximum PInf (Fin b) = PInf"
| "fmaximum PInf PInf = PInf"
| "fmaximum PInf NInf = PInf"
| "fmaximum PInf NaN = NaN"
| "fmaximum NInf (Fin b) = Fin b"
| "fmaximum NInf PInf = PInf"
| "fmaximum NInf NInf = NInf"
| "fmaximum NInf NaN = NaN"
| "fmaximum NaN b = NaN"

text \<open>The comparison \<open>a > b\<close>; it is false as soon as one side is \<open>NaN\<close>.\<close>

fun fgt :: "fl \<Rightarrow> fl \<Rightarrow> bool" where
  "fgt (Fin a) (Fin b) = (b < a)"
| "fgt (Fin a) NInf = True"
| "fgt PInf (Fin b) = True"
| "fgt PInf NInf = True"
| "fgt a b = False"

text \<open>Sums along an axis, dot products, and the maximum along an axis.\<close>

definition fsum :: "fl list \<Rightarrow> fl" where
  "fsum xs = foldr fadd xs (Fin 0)"

definition fdot :: "fl list \<Rightarrow> fl list \<Rightarrow> fl" where
  "fdot a b = fsum (map2 fmul a b)"

definition fmax_list :: "fl list \<Rightarrow> fl" where
  "fmax_list xs = foldr fmaximum xs NInf"

text \<open>
  \<open>torch.softmax\<close> along the last axis, as the library computes it: the maximum of the row
  is subtracted before the exponential. On a row of finite numbers this is
  \<open>exp x / sum (exp x)\<close>.
\<close>

definition fsoftmax :: "fl list \<Rightarrow> fl list" where
  "fsoftmax xs =
     (let m = fmax_list xs;
          es = map (\<lambda>x. fexp (fsub x m)) xs;
          s = fsum es
      in map (\<lambda>e. fdiv e s) es)"

text \<open>The plain softmax of a row of real numbers, for reference.\<close>

definition softmax :: "real list \<Rightarrow> real list" where
  "softmax xs = map (\<lambda>x. exp x / sum_list (map exp xs)) xs"

section \<open>Scaling functions\<close>

text \<open>\<open>torch.arange(n)\<close> in the dtype of the input: the positions \<open>0, ..., n - 1\<close>.\<close>

definition arange :: "nat \<Rightarrow> fl list" where
  "arange n = map (\<lambda>i. Fin (real i)) [0..<n]"

definition log_base :: "fl \<Rightarrow> real \<Rightarrow> fl" where
  "log_base x base = fdiv (flog x) (flog (Fin base))"


definition relative_scaling :: "fl list \<Rightarrow> real \<Rightarrow> real \<Rightarrow> fl list" where
  "relative_scaling seq_len head_dim base_seq_len =
     map (\<lambda>s. fsqrt (fdiv (log_base s base_seq_len) (Fin head_dim))) seq_len"

definition relative_scaling_2 :: "fl list \<Rightarrow> real \<Rightarrow> real list \<Rightarrow> real \<Rightarrow> fl list list" where
  "relative_scaling_2 seq_len head_dim attn_bias base_seq_len =
     map (\<lambda>b. map (\<lambda>s. fsqrt (fdiv (fmul (log_base s base_seq_len) (Fin b)) (Fin head_dim)))
                   seq_len) attn_bias"


section \<open>Library operations on tensors\<close>

text \<open>
  Every operation of the forward passes acts on each element of the batch independently, so
  the model is the forward pass on one batch element: the input \<open>x\<close> is the list of the \<open>n\<close>
  token vectors of a sequence, each of length \<open>dim\<close>. Inputs and weights are finite. A tensor
  with a heads axis is the list of its per-head matrices.
\<close>

datatype torch_error = ShapeError | IndexError | ZeroDivisionError

definition dot :: "real list \<Rightarrow> real list \<Rightarrow> real" where
  "dot a b = sum_list (map2 (*) a b)"

text \<open>\<open>nn.Linear\<close> without bias, and with bias on a tensor of \<open>fl\<close> elements.\<close>

definition linear :: "real list list \<Rightarrow> real list \<Rightarrow> real list" where
  "linear W x = map (\<lambda>w. dot w x) W"

definition flinear :: "real list list \<Rightarrow> real list \<Rightarrow> fl list \<Rightarrow> fl list" where
  "flinear W b x = map2 (\<lambda>w bi. fadd (fdot (map Fin w) x) (Fin bi)) W b"

definition to_fl :: "real list list \<Rightarrow> fl list list" where
  "to_fl t = map (map Fin) t"

text \<open>\<open>rearrange(t, 'b n (h d) -> b h n d', h=h)\<close> and \<open>rearrange(out, 'b h n d -> b n (h d)')\<close>.\<close>

definition split_heads :: "nat \<Rightarrow> 'a list list \<Rightarrow> 'a list list list" where
  "split_heads h t =
     map (\<lambda>j. map (\<lambda>row. take (length row div h) (drop (j * (length row div h)) row)) t) [0..<h]"

definition merge_heads :: "nat \<Rightarrow> 'a list list list \<Rightarrow> 'a list list" where
  "merge_heads n hs = map (\<lambda>i. concat (map (\<lambda>hm. hm ! i) hs)) [0..<n]"

text \<open>The product of attention weights \<open>(n, n)\<close> and values \<open>(n, d)\<close>.\<close>

definition ncols :: "'a list list \<Rightarrow> nat" where
  "ncols v = (case v of [] \<Rightarrow> 0 | r # _ \<Rightarrow> length r)"

definition fmatmul :: "fl list list \<Rightarrow> fl list list \<Rightarrow> fl list list" where
  "fmatmul a v = map (\<lambda>row. map (\<lambda>c. fdot row (map (\<lambda>vj. vj ! c) v)) [0..<ncols v]) a"

text \<open>
  \<open>scaled_dot_product_attention(q, k, v, is_causal=True, scale=s)\<close> on one head, after the
  reference implementation in the library's documentation: the bias is \<open>0\<close> on and below the
  diagonal and \<open>-inf\<close> above it, the weights are the softmax of \<open>q k\<^sup>T * s + bias\<close>, and the
  result is the product of weights and values. Without \<open>scale\<close> the factor is
  \<open>1 / sqrt d\<close> for head dimension \<open>d\<close>.
\<close>

definition causal_bias :: "nat \<Rightarrow> nat \<Rightarrow> fl" where
  "causal_bias i j = (if j \<le> i then Fin 0 else NInf)"

definition sdpa_weights :: "fl list list \<Rightarrow> fl list list \<Rightarrow> fl \<Rightarrow> fl list list" where
  "sdpa_weights q k scale =
     map (\<lambda>i. fsoftmax (map (\<lambda>j. fadd (fmul (fdot (q ! i) (k ! j)) scale) (causal_bias i j))
                              [0..<length k]))
         [0..<length q]"

definition sdpa :: "fl list list \<Rightarrow> fl list list \<Rightarrow> fl list list \<Rightarrow> fl \<Rightarrow> fl list list" where
  "sdpa q k v scale = fmatmul (sdpa_weights q k scale) v"

definition default_scale :: "nat \<Rightarrow> fl" where
  "default_scale d = fdiv (Fin 1) (Fin (sqrt (real d)))"

text \<open>\<open>torch.finfo(dtype).max\<close>, the largest finite value of a floating-point type.\<close>

datatype dtype = Float16 | BFloat16 | Float32 | Float64

fun finfo_max :: "dtype \<Rightarrow> real" where
  "finfo_max Float16 = 65504"
| "finfo_max BFloat16 = (2 - 1 / 2 ^ 7) * 2 ^ 127"
| "finfo_max Float32 = (2 - 1 / 2 ^ 23) * 2 ^ 127"
| "finfo_max Float64 = (2 - 1 / 2 ^ 52) * 2 ^ 1023"

text \<open>\<open>torch.ones((n, n), dtype=torch.bool).triu(1)\<close> and \<open>masked_fill\<close>.\<close>

definition triu1 :: "nat \<Rightarrow> bool list list" where
  "triu1 n = map (\<lambda>i. map (\<lambda>j. i < j) [0..<n]) [0..<n]"

definition masked_fill :: "fl list list \<Rightarrow> bool list list \<Rightarrow> fl \<Rightarrow> fl list list" where
  "masked_fill t msk v = map2 (map2 (\<lambda>s b. if b then v else s)) t msk"

section \<open>Adaptive-temperature softmax\<close>

fun fpow :: "fl \<Rightarrow> nat \<Rightarrow> fl" where
  "fpow x 0 = Fin 1"
| "fpow x (Suc n) = fmul x (fpow x n)"

definition poly_fit :: "real list" where
  "poly_fit = [- 0.037, 0.481, - 2.3, 4.917, - 1.791]"

definition ats_entropy :: "fl list \<Rightarrow> fl" where
  "ats_entropy logits =
     (let original_probs = fsoftmax logits
      in fsum (map (\<lambda>p. fmul (fneg p) (flog (fadd p (Fin (1 / 10 ^ 9))))) original_probs))"

definition ats_poly_result :: "fl \<Rightarrow> fl" where
  "ats_poly_result entropy =
     fadd (fadd (fadd (fadd (fmul (Fin (poly_fit ! 0)) (fpow entropy 4))
                            (fmul (Fin (poly_fit ! 1)) (fpow entropy 3)))
                      (fmul (Fin (poly_fit ! 2)) (fpow entropy 2)))
                (fmul (Fin (poly_fit ! 3)) entropy))
          (Fin (poly_fit ! 4))"


definition ats_beta :: "fl list \<Rightarrow> fl" where
  "ats_beta logits =
     (let entropy = ats_entropy logits
      in if fgt entropy (Fin 0.5) then fmaximum (ats_poly_result entropy) (Fin 1) else Fin 1)"

text \<open>
  The logits tensor is the list of its rows along the last axis; the entropy and \<open>beta\<close>
  keep that axis with size one (\<open>keepdim=True\<close>), one value per row.
\<close>

definition adaptive_temperature_softmax :: "fl list list \<Rightarrow> fl list list" where
  "adaptive_temperature_softmax logits =
     map (\<lambda>row. fsoftmax (map (\<lambda>l. fmul l (ats_beta row)) row)) logits"

section \<open>Attention modules\<close>

record attention_base =
  dim :: nat
  heads :: nat
  to_q :: "real list list"
  to_k :: "real list list"
  to_v :: "real list list"
  to_out :: "real list list"
  to_out_bias :: "real list"

text \<open>
  The projections as the constructor builds them: \<open>nn.Linear(dim, dim)\<close> has a weight of \<open>dim\<close>
  rows of length \<open>dim\<close>, and the output projection has a bias of length \<open>dim\<close>.
\<close>

definition wf_module :: "'a attention_base_scheme \<Rightarrow> bool" where
  "wf_module m =
     (list_all (\<lambda>W. length W = dim m \<and> list_all (\<lambda>w. length w = dim m) W)
               [to_q m, to_k m, to_v m, to_out m]
      \<and> length (to_out_bias m) = dim m)"

text \<open>
  The library raises when the last axis of the input is not \<open>dim\<close> (\<open>nn.Linear\<close>) or when
  \<open>dim\<close> is not \<open>heads\<close> times a head dimension (\<open>rearrange\<close>).
\<close>

definition input_ok :: "'a attention_base_scheme \<Rightarrow> real list list \<Rightarrow> bool" where
  "input_ok m x = (0 < heads m \<and> dim m mod heads m = 0 \<and> list_all (\<lambda>tok. length tok = dim m) x)"

definition heads_of :: "'a attention_base_scheme \<Rightarrow> real list list \<Rightarrow> real list list \<Rightarrow> real list list list" where
  "heads_of m W x = split_heads (heads m) (map (linear W) x)"

definition project_out :: "'a attention_base_scheme \<Rightarrow> nat \<Rightarrow> fl list list list \<Rightarrow> fl list list" where
  "project_out m n out = map (flinear (to_out m) (to_out_bias m)) (merge_heads n out)"

definition base_forward :: "'a attention_base_scheme \<Rightarrow> real list list \<Rightarrow> torch_error + fl list list" where
  "base_forward m x =
     (if \<not> input_ok m x then Inl ShapeError
      else let h = heads m; n = length x;
               q = heads_of m (to_q m) x; k = heads_of m (to_k m) x; v = heads_of m (to_v m) x;
               out = map (\<lambda>j. sdpa (to_fl (q ! j)) (to_fl (k ! j)) (to_fl (v ! j))
                                    (default_scale (dim m div h))) [0..<h]
           in Inr (project_out m n out))"

text \<open>
  The four variants that scale the queries share the rest of their forward pass: the queries
  of head \<open>j\<close> at position \<open>i\<close> are multiplied by the scale of that head and position, and the
  attention runs with \<open>scale=1.0\<close>.
\<close>

definition scaled_queries :: "'a attention_base_scheme \<Rightarrow> real list list \<Rightarrow> fl list list \<Rightarrow> fl list list list" where
  "scaled_queries m x scales =
     (let q = heads_of m (to_q m) x
      in map (\<lambda>j. map2 (\<lambda>row s. map (\<lambda>e. fmul e s) row) (to_fl (q ! j)) (scales ! j))
             [0..<heads m])"

definition scaled_forward :: "'a attention_base_scheme \<Rightarrow> real list list \<Rightarrow> fl list list \<Rightarrow> torch_error + fl list list" where
  "scaled_forward m x scales =
     (let h = heads m; n = length x;
          q = scaled_queries m x scales; k = heads_of m (to_k m) x; v = heads_of m (to_v m) x;
          out = map (\<lambda>j. sdpa (q ! j) (to_fl (k ! j)) (to_fl (v ! j)) (Fin 1)) [0..<h]
      in Inr (project_out m n out))"

record attention_relative_scaling_1 = attention_base +
  base_seq_len :: real

definition relative_scaling_1_forward :: "attention_relative_scaling_1 \<Rightarrow> real list list \<Rightarrow> torch_error + fl list list" where
  "relative_scaling_1_forward m x =
     (if \<not> input_ok m x then Inl ShapeError
      else let seq_lens = arange (length x);
               scales = relative_scaling seq_lens (real (dim m) / real (heads m)) (base_seq_len m)
           in scaled_forward m x (replicate (heads m) scales))"

text \<open>The attention weights of head \<open>j\<close> inside the attention call of that forward pass.\<close>

definition relative_scaling_1_weights :: "attention_relative_scaling_1 \<Rightarrow> real list list \<Rightarrow> nat \<Rightarrow> fl list list" where
  "relative_scaling_1_weights m x j =
     (let seq_lens = arange (length x);
          scales = relative_scaling seq_lens (real (dim m) / real (heads m)) (base_seq_len m)
      in sdpa_weights (scaled_queries m x (replicate (heads m) scales) ! j)
                      (to_fl (heads_of m (to_k m) x ! j)) (Fin 1))"

text \<open>A tensor registered on a module as a trainable parameter or as a buffer.\<close>

datatype 'a registered = Parameter 'a | Buffer 'a

fun tensor_of :: "'a registered \<Rightarrow> 'a" where
  "tensor_of (Parameter t) = t"
| "tensor_of (Buffer t) = t"

record attention_relative_scaling_2 = attention_base +
  base_seq_len_2 :: real
  attn_bias :: "real list registered"

definition relative_scaling_2_init ::
  "attention_base \<Rightarrow> real \<Rightarrow> real \<Rightarrow> bool \<Rightarrow> attention_relative_scaling_2" where
  "relative_scaling_2_init base bsl bias learned_bias =
     (let t = replicate (heads base) bias
      in attention_base.extend base
           (attention_relative_scaling_2.fields bsl (if learned_bias then Parameter t else Buffer t)))"

definition relative_scaling_2_forward :: "attention_relative_scaling_2 \<Rightarrow> real list list \<Rightarrow> torch_error + fl list list" where
  "relative_scaling_2_forward m x =
     (if \<not> input_ok m x then Inl ShapeError
      else let seq_lens = arange (length x);
               scales = relative_scaling_2 seq_lens (real (dim m) / real (heads m))
                          (tensor_of (attn_bias m)) (base_seq_len_2 m)
           in scaled_forward m x scales)"

definition relative_scaling_2_weights :: "attention_relative_scaling_2 \<Rightarrow> real list list \<Rightarrow> nat \<Rightarrow> fl list list" where
  "relative_scaling_2_weights m x j =
     (let seq_lens = arange (length x);
          scales = relative_scaling_2 seq_lens (real (dim m) / real (heads m))
                     (tensor_of (attn_bias m)) (base_seq_len_2 m)
      in sdpa_weights (scaled_queries m x scales ! j)
                      (to_fl (heads_of m (to_k m) x ! j)) (Fin 1))"


record attention_learned_scaling = attention_base +
  alphas :: "real list"
  betas :: "real list"
  head_dim :: real
  base_scale :: real

text \<open>
  The constructor: \<open>alphas\<close> and \<open>betas\<close> start at zero, one per head. The division
  \<open>dim / heads\<close> of Python integers raises for \<open>heads = 0\<close>.
\<close>

definition learned_scaling_init :: "attention_base \<Rightarrow> torch_error + attention_learned_scaling" where
  "learned_scaling_init base =
     (if heads base = 0 then Inl ZeroDivisionError
      else let hd = real (dim base) / real (heads base)
           in Inr (attention_base.extend base
                     (attention_learned_scaling.fields
                        (replicate (heads base) 0) (replicate (heads base) 0) hd (sqrt hd))))"

definition create_scaling :: "attention_learned_scaling \<Rightarrow> fl list \<Rightarrow> fl list list" where
  "create_scaling m seq_lens =
     map2 (\<lambda>a b. map (\<lambda>s. let log_seq_lens = flog s;
                              multiplier = fadd (fadd (Fin 1) (fmul (Fin a) log_seq_lens)) (Fin b);
                              scales = fmul multiplier (Fin (base_scale m))
                          in fdiv (Fin 1) scales) seq_lens)
          (alphas m) (betas m)"

definition learned_scaling_forward :: "attention_learned_scaling \<Rightarrow> real list list \<Rightarrow> torch_error + fl list list" where
  "learned_scaling_forward m x =
     (if \<not> input_ok m x then Inl ShapeError
      else let seq_lens = arange (length x);
               scales = create_scaling m seq_lens
           in scaled_forward m x scales)"

text \<open>
  The three variants that mask by hand start alike: the similarity of queries and keys,
  divided by \<open>sqrt\<close> of the head dimension \<open>q.shape[-1]\<close>, with the entries above the
  diagonal replaced by \<open>-torch.finfo(sim.dtype).max\<close>.
\<close>

definition scaled_sim :: "real list list \<Rightarrow> real list list \<Rightarrow> fl list list" where
  "scaled_sim q k = map (\<lambda>qi. map (\<lambda>kj. fdiv (Fin (dot qi kj)) (Fin (sqrt (real (ncols q))))) k) q"

definition masked_sim :: "dtype \<Rightarrow> real list list \<Rightarrow> real list list \<Rightarrow> fl list list" where
  "masked_sim dt q k =
     (let sim = scaled_sim q k; msk = triu1 (length q)
      in masked_fill sim msk (Fin (- finfo_max dt)))"

definition poly_fit_forward :: "attention_base \<Rightarrow> dtype \<Rightarrow> real list list \<Rightarrow> torch_error + fl list list" where
  "poly_fit_forward m dt x =
     (if \<not> input_ok m x then Inl ShapeError
      else let h = heads m; n = length x;
               q = heads_of m (to_q m) x; k = heads_of m (to_k m) x; v = heads_of m (to_v m) x;
               out = map (\<lambda>j. let sim = masked_sim dt (q ! j) (k ! j);
                                  attn = adaptive_temperature_softmax sim
                              in fmatmul attn (to_fl (v ! j))) [0..<h]
           in Inr (project_out m n out))"

record attention_softmax_plus_one = attention_base +
  denom_bias :: "real list"

text \<open>
  The softmax written out by hand on one head, with a term added to the denominator of each
  row. \<open>torch.max\<close> along an axis of size zero raises, so an empty sequence is an error.
\<close>

definition plus_denominator_attn :: "fl list list \<Rightarrow> fl list \<Rightarrow> fl list list" where
  "plus_denominator_attn sim extra =
     map2 (\<lambda>row t. let sim_max = fmax_list row;
                      exp_sim = map (\<lambda>s. fexp (fsub s sim_max)) row;
                      denom = fsum exp_sim;
                      modified_denom = fadd denom t
                  in map (\<lambda>e. fdiv e modified_denom) exp_sim) sim extra"

definition softmax_plus_one_forward :: "attention_softmax_plus_one \<Rightarrow> dtype \<Rightarrow> real list list \<Rightarrow> torch_error + fl list list" where
  "softmax_plus_one_forward m dt x =
     (if \<not> input_ok m x then Inl ShapeError
      else if x = [] then Inl IndexError
      else let h = heads m; n = length x;
               q = heads_of m (to_q m) x; k = heads_of m (to_k m) x; v = heads_of m (to_v m) x;
               out = map (\<lambda>j. let sim = masked_sim dt (q ! j) (k ! j);
                                  attn = plus_denominator_attn sim
                                           (replicate n (fexp (Fin (denom_bias m ! j))))
                              in fmatmul attn (to_fl (v ! j))) [0..<h]
           in Inr (project_out m n out))"

record attention_softmax_plus_fn = attention_base +
  fn_alphas :: "real list"
  fn_betas :: "real list"

definition softmax_plus_fn_forward :: "attention_softmax_plus_fn \<Rightarrow> dtype \<Rightarrow> real list list \<Rightarrow> torch_error + fl list list" where
  "softmax_plus_fn_forward m dt x =
     (if \<not> input_ok m x then Inl ShapeError
      else if x = [] then Inl IndexError
      else let h = heads m; n = length x;
               q = heads_of m (to_q m) x; k = heads_of m (to_k m) x; v = heads_of m (to_v m) x;
               seq_lens = arange n;
               out = map (\<lambda>j. let sim = masked_sim dt (q ! j) (k ! j);
                                  attn = plus_denominator_attn sim
                                           (map (\<lambda>s. fexp (fadd (fmul (Fin (fn_alphas m ! j)) (flog s))
                                                                 (Fin (fn_betas m ! j)))) seq_lens)
                              in fmatmul attn (to_fl (v ! j))) [0..<h]
           in Inr (project_out m n out))"

section \<open>Rows of finite numbers\<close>

lemma fsum_Fin: "fsum (map Fin xs) = Fin (sum_list xs)"
  by (induction xs) (simp_all add: fsum_def)

lemma map2_fmul_Fin: "map2 fmul (map Fin a) (map Fin b) = map Fin (map2 (*) a b)"
  by (induction a b rule: list_induct2') auto

lemma fdot_Fin: "fdot (map Fin a) (map Fin b) = Fin (dot a b)"
  unfolding fdot_def dot_def map2_fmul_Fin fsum_Fin ..

lemma fmax_list_Fin: "xs \<noteq> [] \<Longrightarrow> fmax_list (map Fin xs) = Fin (Max (set xs))"
proof (induction xs)
  case Nil then show ?case by simp
next
  case (Cons a xs)
  show ?case
  proof (cases "xs = []")
    case True then show ?thesis by (simp add: fmax_list_def)
  next
    case False
    with Cons have "fmax_list (map Fin xs) = Fin (Max (set xs))" by simp
    then show ?thesis using False by (simp add: fmax_list_def)
  qed
qed

lemma sum_list_exp_pos: "xs \<noteq> [] \<Longrightarrow> 0 < sum_list (map (\<lambda>x. exp (f x)) xs)" for f :: "'a \<Rightarrow> real"
proof (induction xs)
  case Nil then show ?case by simp
next
  case (Cons a xs)
  have "0 \<le> sum_list (map (\<lambda>x. exp (f x)) xs)" by (rule sum_list_nonneg) auto
  moreover have "0 < exp (f a)" by simp
  ultimately show ?case by (simp add: add_pos_nonneg)
qed

lemma sum_list_exp_shift:
  "sum_list (map (\<lambda>x. exp (x - m)) xs) = sum_list (map exp xs) / exp m" for m :: real
  by (induction xs) (simp_all add: exp_diff add_divide_distrib)

lemma exp_shift_softmax:
  fixes x m :: real
  assumes "xs \<noteq> []"
  shows "exp (x - m) / sum_list (map (\<lambda>x. exp (x - m)) xs) = exp x / sum_list (map exp xs)"
proof -
  have "0 < sum_list (map exp xs)" using sum_list_exp_pos[OF assms, of "\<lambda>x. x"] by simp
  have "exp (x - m) / sum_list (map (\<lambda>x. exp (x - m)) xs)
        = (exp x / exp m) / (sum_list (map exp xs) / exp m)"
    by (subst sum_list_exp_shift) (simp only: exp_diff)
  also have "\<dots> = exp x / sum_list (map exp xs)" by simp
  finally show ?thesis .
qed




lemma length_softmax [simp]: "length (softmax xs) = length xs"
  by (simp add: softmax_def)

lemma arange_nth: "p < n \<Longrightarrow> arange n ! p = Fin (real p)"
  by (simp add: arange_def)

lemma length_arange [simp]: "length (arange n) = n"
  by (simp add: arange_def)

section \<open>The learned scaling law\<close>

text \<open>
  Claim C8. For every position \<open>p \<ge> 1\<close> and all \<open>alpha\<close>, \<open>beta\<close> of a head,
  \<open>AttentionLearnedScaling.create_scaling\<close> returns
  \<open>1 / ((1 + alpha * ln p + beta) * sqrt head_dim)\<close> at that head and position, where
  \<open>head_dim = dim / heads\<close> and \<open>base_scale = sqrt head_dim\<close> is fixed by the constructor.
  The quotient is the quotient of tensor elements; it is the real quotient whenever the
  divisor is not zero.
\<close>

theorem create_scaling_formula:
  assumes init: "learned_scaling_init base = Inr m0"
    and m: "m = m0\<lparr>alphas := as, betas := bs\<rparr>"
    and j: "j < length as" "j < length bs"
    and p: "1 \<le> p" "p < n"
  shows "base_scale m = sqrt (real (dim base) / real (heads base))
       \<and> create_scaling m (arange n) ! j ! p =
           fdiv (Fin 1) (Fin ((1 + as ! j * ln (real p) + bs ! j) * sqrt (real (dim base) / real (heads base))))
       \<and> ((1 + as ! j * ln (real p) + bs ! j) * sqrt (real (dim base) / real (heads base)) \<noteq> 0 \<longrightarrow>
           create_scaling m (arange n) ! j ! p =
             Fin (1 / ((1 + as ! j * ln (real p) + bs ! j) * sqrt (real (dim base) / real (heads base)))))"
proof -
  have bs: "base_scale m = sqrt (real (dim base) / real (heads base))"
    using init m
    by (auto simp: learned_scaling_init_def Let_def attention_base.extend_def
        attention_learned_scaling.fields_def split: if_splits)
  have ab: "alphas m = as" "betas m = bs" using m by simp_all
  have "create_scaling m (arange n) ! j ! p =
          fdiv (Fin 1) (Fin ((1 + as ! j * ln (real p) + bs ! j) * base_scale m))"
    using j p by (simp add: create_scaling_def ab arange_nth Let_def)
  then show ?thesis using bs by simp
qed

theorem create_scaling_formula_witness:
  "learned_scaling_init \<lparr>dim = 4, heads = 1, to_q = [], to_k = [], to_v = [], to_out = [], to_out_bias = []\<rparr>
     = Inr (attention_base.extend \<lparr>dim = 4, heads = 1, to_q = [], to_k = [], to_v = [], to_out = [], to_out_bias = []\<rparr>
             (attention_learned_scaling.fields [0] [0] 4 2))
   \<and> create_scaling ((attention_base.extend \<lparr>dim = 4, heads = 1, to_q = [], to_k = [], to_v = [], to_out = [], to_out_bias = []\<rparr>
             (attention_learned_scaling.fields [0] [0] 4 2))\<lparr>alphas := [3], betas := [1]\<rparr>) (arange 3) ! 0 ! 2
     = Fin (1 / ((1 + 3 * ln 2 + 1) * 2))"
proof -
  let ?B = "\<lparr>dim = 4, heads = 1, to_q = [], to_k = [], to_v = [], to_out = [], to_out_bias = []\<rparr>"
  let ?M = "attention_base.extend ?B (attention_learned_scaling.fields [0] [0] 4 2)"
  have i: "learned_scaling_init ?B = Inr ?M"
    by (simp add: learned_scaling_init_def Let_def)
  have nz: "(1 + [3] ! 0 * ln (real 2) + [1] ! 0) * sqrt (real (dim ?B) / real (heads ?B)) \<noteq> 0"
  proof -
    have "0 < ln (2::real)" by simp
    then have "0 < 1 + 3 * ln (2::real) + 1" by linarith
    then show ?thesis by simp
  qed
  have "create_scaling (?M\<lparr>alphas := [3], betas := [1]\<rparr>) (arange 3) ! 0 ! 2
        = Fin (1 / ((1 + [3] ! 0 * ln (real 2) + [1] ! 0) * sqrt (real (dim ?B) / real (heads ?B))))"
    using create_scaling_formula[OF i refl, of 0 "[3]" "[1]" 2 3] nz by simp
  then show ?thesis using i by simp
qed

section \<open>Trainable parameter or fixed buffer\<close>

text \<open>
  Claim C9. Two \<open>AttentionRelativeScaling2\<close> modules that differ only in the constructor
  flag \<open>learned_bias\<close>, with the same projection weights and the same value of \<open>attn_bias\<close>,
  have the same forward output on every input: as built by the constructor, and for any
  later value \<open>t\<close> of the bias tensor.
\<close>

theorem learned_bias_flag_irrelevant:
  "relative_scaling_2_forward (relative_scaling_2_init base bsl bias True) x
     = relative_scaling_2_forward (relative_scaling_2_init base bsl bias False) x
   \<and> relative_scaling_2_forward (m\<lparr>attn_bias := Parameter t\<rparr>) x
     = relative_scaling_2_forward (m\<lparr>attn_bias := Buffer t\<rparr>) x"
  by (simp add: relative_scaling_2_forward_def relative_scaling_2_init_def input_ok_def
      scaled_forward_def scaled_queries_def heads_of_def project_out_def
      attention_base.extend_def attention_relative_scaling_2.fields_def)

section \<open>The causal mask written by hand\<close>

lemma length_scaled_sim [simp]: "length (scaled_sim q k) = length q"
  by (simp add: scaled_sim_def)

lemma scaled_sim_row [simp]: "i < length q \<Longrightarrow> length (scaled_sim q k ! i) = length k"
  by (simp add: scaled_sim_def)

lemma masked_sim_nth:
  assumes "length k = length q" "i < length q" "j < length q"
  shows "masked_sim dt q k ! i ! j = (if i < j then Fin (- finfo_max dt) else scaled_sim q k ! i ! j)"
  using assms by (simp add: masked_sim_def masked_fill_def triu1_def Let_def)

lemma length_masked_sim [simp]: "length (masked_sim dt q k) = length q"
  by (simp add: masked_sim_def masked_fill_def triu1_def Let_def)

lemma length_masked_sim_row [simp]:
  "length k = length q \<Longrightarrow> i < length q \<Longrightarrow> length (masked_sim dt q k ! i) = length q"
  by (simp add: masked_sim_def masked_fill_def triu1_def Let_def)

text \<open>
  Claim C7. In \<open>AttentionPolyFitScaling\<close>, \<open>AttentionSoftmaxPlusOne\<close> and
  \<open>AttentionSoftmaxPlusFN\<close>, whose forward passes all build \<open>masked_sim\<close>, every entry above
  the diagonal (column \<open>j\<close> greater than row \<open>i\<close>) of the scaled similarity matrix is
  \<open>-finfo(dtype).max\<close>, a finite value and not \<open>-inf\<close>; the entries on and below the diagonal are
  unchanged; so an entry of the masked matrix is finite if the entry before masking is, which
  it is for a head dimension of at least one.
\<close>

theorem masked_entries_finite:
  assumes "length k = length q" "i < length q" "j < length q"
  shows "(i < j \<longrightarrow> masked_sim dt q k ! i ! j = Fin (- finfo_max dt)
                 \<and> masked_sim dt q k ! i ! j \<noteq> NInf)
       \<and> (j \<le> i \<longrightarrow> masked_sim dt q k ! i ! j = scaled_sim q k ! i ! j)
       \<and> (is_finite (scaled_sim q k ! i ! j) \<longrightarrow> is_finite (masked_sim dt q k ! i ! j))
       \<and> (0 < ncols q \<longrightarrow> is_finite (masked_sim dt q k ! i ! j))"
proof -
  have "0 < ncols q \<Longrightarrow> is_finite (scaled_sim q k ! i ! j)"
    using assms by (simp add: scaled_sim_def)
  then show ?thesis using masked_sim_nth[OF assms, of dt] by auto
qed

theorem masked_entries_finite_witness:
  "masked_sim Float32 [[1], [2]] [[3], [5]] ! 0 ! 1 = Fin (- ((2 - 1 / 2 ^ 23) * 2 ^ 127))
   \<and> masked_sim Float32 [[1], [2]] [[3], [5]] ! 1 ! 0 = Fin 6
   \<and> is_finite (masked_sim Float32 [[1], [2]] [[3], [5]] ! 0 ! 1)"
proof -
  have s: "scaled_sim [[1], [2]] [[3], [5]] ! 1 ! 0 = Fin 6"
    by (simp add: scaled_sim_def ncols_def dot_def)
  have n: "0 < ncols [[1::real], [2]]" by (simp add: ncols_def)
  have l: "length [[3::real], [5]] = length [[1::real], [2]]" by simp
  show ?thesis
    using masked_entries_finite[OF l, of 0 1 Float32] masked_entries_finite[OF l, of 1 0 Float32] s n
    by simp
qed

section \<open>Adaptive temperature on rows of finite logits\<close>











section \<open>Softmax with a term added to the denominator\<close>





section \<open>Causal attention on scaled queries\<close>

lemma fmax_list_append: "fmax_list (a @ b) = foldr fmaximum a (fmax_list b)"
  by (simp add: fmax_list_def)

lemma fmax_list_replicate_NInf: "fmax_list (replicate k NInf) = NInf"
  by (induction k) (simp_all add: fmax_list_def)

lemma foldr_fmaximum_Fin:
  "xs \<noteq> [] \<Longrightarrow> foldr fmaximum (map Fin xs) NInf = Fin (Max (set xs))"
  using fmax_list_Fin by (simp add: fmax_list_def)

lemma fsum_append_zeros: "fsum (map Fin xs @ replicate k (Fin 0)) = Fin (sum_list xs)"
proof -
  have "map Fin xs @ replicate k (Fin 0) = map Fin (xs @ replicate k 0)" by simp
  then show ?thesis by (simp only: fsum_Fin) (simp add: sum_list_replicate)
qed

lemma fsoftmax_causal:
  assumes "xs \<noteq> []"
  shows "fsoftmax (map Fin xs @ replicate k NInf) = map Fin (softmax xs) @ replicate k (Fin 0)"
proof -
  define m where "m = Max (set xs)"
  define S where "S = sum_list (map (\<lambda>x. exp (x - m)) xs)"
  have S: "0 < S" unfolding S_def using sum_list_exp_pos[OF assms, of "\<lambda>x. x - m"] by simp
  have mx: "fmax_list (map Fin xs @ replicate k NInf) = Fin m"
    using assms by (simp add: fmax_list_append fmax_list_replicate_NInf foldr_fmaximum_Fin m_def)
  have es: "map (\<lambda>x. fexp (fsub x (Fin m))) (map Fin xs @ replicate k NInf)
            = map Fin (map (\<lambda>x. exp (x - m)) xs) @ replicate k (Fin 0)"
    by (simp add: fsub_def)
  have "fsoftmax (map Fin xs @ replicate k NInf)
        = map (\<lambda>e. fdiv e (Fin S)) (map Fin (map (\<lambda>x. exp (x - m)) xs) @ replicate k (Fin 0))"
    unfolding fsoftmax_def mx Let_def es fsum_append_zeros S_def ..
  also have "\<dots> = map Fin (map (\<lambda>x. exp (x - m) / S) xs) @ replicate k (Fin 0)"
    using S by simp
  also have "map (\<lambda>x. exp (x - m) / S) xs = softmax xs"
    unfolding softmax_def S_def using exp_shift_softmax[OF assms] by simp
  finally show ?thesis .
qed

lemma causal_bias_row:
  "i < n \<Longrightarrow> map (causal_bias i) [0..<n] = replicate (Suc i) (Fin 0) @ replicate (n - Suc i) NInf"
proof -
  assume i: "i < n"
  have "[0..<n] = [0..<Suc i] @ [Suc i..<n]"
    using i by (metis Suc_leI le0 upt_add_eq_append le_add_diff_inverse)
  moreover have "map (causal_bias i) [0..<Suc i] = replicate (Suc i) (Fin 0)"
    by (intro replicate_eqI) (auto simp: causal_bias_def)
  moreover have "map (causal_bias i) [Suc i..<n] = replicate (n - Suc i) NInf"
    by (intro replicate_eqI) (auto simp: causal_bias_def)
  ultimately show ?thesis by simp
qed

lemma fdot_zero:
  assumes "\<forall>e\<in>set a. e = Fin 0"
  shows "fdot a (map Fin b) = Fin 0"
  using assms
proof (induction a arbitrary: b)
  case Nil then show ?case by (simp add: fdot_def fsum_def)
next
  case (Cons e a)
  show ?case
  proof (cases b)
    case Nil then show ?thesis by (simp add: fdot_def fsum_def)
  next
    case (Cons y ys)
    have "fdot a (map Fin ys) = Fin 0" using Cons.IH Cons.prems by simp
    then show ?thesis using Cons Cons.prems by (simp add: fdot_def fsum_def)
  qed
qed

lemma length_heads_of [simp]: "length (heads_of m W x) = heads m"
  by (simp add: heads_of_def split_heads_def)

lemma length_heads_of_nth [simp]: "j < heads m \<Longrightarrow> length (heads_of m W x ! j) = length x"
  by (simp add: heads_of_def split_heads_def)

lemma to_fl_nth: "i < length t \<Longrightarrow> to_fl t ! i = map Fin (t ! i)"
  by (simp add: to_fl_def)

lemma length_to_fl [simp]: "length (to_fl t) = length t"
  by (simp add: to_fl_def)

lemma length_scaled_queries [simp]: "length (scaled_queries m x scales) = heads m"
  by (simp add: scaled_queries_def)

lemma scaled_queries_nth:
  assumes "j < heads m" "i < length x" "i < length (scales ! j)"
  shows "scaled_queries m x scales ! j ! i
         = map (\<lambda>e. fmul e (scales ! j ! i)) (map Fin (heads_of m (to_q m) x ! j ! i))"
  using assms by (simp add: scaled_queries_def to_fl_nth)

lemma length_scaled_queries_nth:
  assumes "j < heads m" "length (scales ! j) = length x"
  shows "length (scaled_queries m x scales ! j) = length x"
  using assms by (simp add: scaled_queries_def)

lemma sdpa_weights_nth:
  assumes "i < length q"
  shows "sdpa_weights q k scale ! i
         = fsoftmax (map (\<lambda>j. fadd (fmul (fdot (q ! i) (k ! j)) scale) (causal_bias i j)) [0..<length k])"
  using assms by (simp add: sdpa_weights_def)

text \<open>A query row of zeros attends uniformly to the positions it may see.\<close>

lemma zero_query_uniform:
  assumes i: "i < length q" and len: "length k = length q"
    and z: "\<forall>e\<in>set (q ! i). e = Fin 0"
  shows "sdpa_weights q (to_fl k) (Fin 1) ! i
         = replicate (Suc i) (Fin (1 / real (Suc i))) @ replicate (length q - Suc i) (Fin 0)"
proof -
  have "map (\<lambda>j. fadd (fmul (fdot (q ! i) (to_fl k ! j)) (Fin 1)) (causal_bias i j)) [0..<length k]
        = map (causal_bias i) [0..<length k]"
  proof (rule map_cong[OF refl])
    fix j assume "j \<in> set [0..<length k]"
    then have j: "j < length k" by simp
    have "fdot (q ! i) (to_fl k ! j) = Fin 0" using fdot_zero[OF z] j by (simp add: to_fl_nth)
    then show "fadd (fmul (fdot (q ! i) (to_fl k ! j)) (Fin 1)) (causal_bias i j) = causal_bias i j"
      by (simp add: causal_bias_def)
  qed
  also have "\<dots> = map Fin (replicate (Suc i) 0) @ replicate (length q - Suc i) NInf"
    using causal_bias_row[of i "length q"] i len by simp
  finally have "sdpa_weights q (to_fl k) (Fin 1) ! i
        = fsoftmax (map Fin (replicate (Suc i) 0) @ replicate (length q - Suc i) NInf)"
    using sdpa_weights_nth[OF i, of "to_fl k" "Fin 1"] by simp
  also have "\<dots> = map Fin (softmax (replicate (Suc i) 0)) @ replicate (length q - Suc i) (Fin 0)"
    by (rule fsoftmax_causal) simp
  also have "softmax (replicate (Suc i) 0) = replicate (Suc i) (1 / real (Suc i))"
    by (simp add: softmax_def sum_list_replicate)
  finally show ?thesis by simp
qed

section \<open>Relative scaling at position one\<close>

lemma scaled_forward_weights:
  "scaled_forward m x scales =
     Inr (project_out m (length x)
            (map (\<lambda>j. fmatmul (sdpa_weights (scaled_queries m x scales ! j)
                                             (to_fl (heads_of m (to_k m) x ! j)) (Fin 1))
                               (to_fl (heads_of m (to_v m) x ! j))) [0..<heads m]))"
  by (simp add: scaled_forward_def sdpa_def Let_def)

lemma relative_scaling_1_forward_weights:
  assumes "input_ok m x"
  shows "relative_scaling_1_forward m x =
     Inr (project_out m (length x)
            (map (\<lambda>j. fmatmul (relative_scaling_1_weights m x j)
                               (to_fl (heads_of m (to_v m) x ! j))) [0..<heads m]))"
  using assms
  by (simp add: relative_scaling_1_forward_def relative_scaling_1_weights_def
      scaled_forward_weights Let_def)

lemma relative_scaling_2_forward_weights:
  assumes "input_ok m x"
  shows "relative_scaling_2_forward m x =
     Inr (project_out m (length x)
            (map (\<lambda>j. fmatmul (relative_scaling_2_weights m x j)
                               (to_fl (heads_of m (to_v m) x ! j))) [0..<heads m]))"
  using assms
  by (simp add: relative_scaling_2_forward_def relative_scaling_2_weights_def
      scaled_forward_weights Let_def)

lemma log_base_one: "1 < base \<Longrightarrow> log_base (Fin 1) base = Fin 0"
  by (simp add: log_base_def)

lemma relative_scaling_one:
  assumes "2 \<le> n" "0 < hdim" "1 < base"
  shows "relative_scaling (arange n) hdim base ! 1 = Fin 0"
  using assms by (simp add: relative_scaling_def arange_nth log_base_one)

lemma relative_scaling_2_one:
  assumes "2 \<le> n" "0 < hdim" "1 < base" "j < length bs"
  shows "relative_scaling_2 (arange n) hdim bs base ! j ! 1 = Fin 0"
  using assms by (simp add: relative_scaling_2_def arange_nth log_base_one)

lemma scaled_query_zero:
  assumes "j < heads m" "i < length x" "i < length (scales ! j)" "scales ! j ! i = Fin 0"
  shows "\<forall>e\<in>set (scaled_queries m x scales ! j ! i). e = Fin 0"
  using assms by (auto simp: scaled_queries_nth)

lemma uniform_row_one:
  assumes j: "j < heads m" and n: "2 \<le> length x"
    and len: "length (scales ! j) = length x" and z: "scales ! j ! 1 = Fin 0"
  shows "sdpa_weights (scaled_queries m x scales ! j) (to_fl (heads_of m (to_k m) x ! j)) (Fin 1) ! 1
         = Fin (1 / 2) # Fin (1 / 2) # replicate (length x - 2) (Fin 0)"
proof -
  let ?q = "scaled_queries m x scales ! j"
  have lq: "length ?q = length x" using j len by (rule length_scaled_queries_nth)
  have i: "1 < length ?q" using lq n by simp
  have lk: "length (heads_of m (to_k m) x ! j) = length ?q" using j lq by simp
  have zq: "\<forall>e\<in>set (?q ! 1). e = Fin 0"
    using scaled_query_zero[OF j, of 1 x scales] n len z by simp
  have "sdpa_weights ?q (to_fl (heads_of m (to_k m) x ! j)) (Fin 1) ! 1
        = replicate (Suc 1) (Fin (1 / real (Suc 1))) @ replicate (length ?q - Suc 1) (Fin 0)"
    using i lk zq by (rule zero_query_uniform)
  then show ?thesis using lq by (simp add: numeral_2_eq_2)
qed

text \<open>
  Claim C10. For a base sequence length above one, \<open>log_base 1 = 0\<close>, so \<open>relative_scaling\<close>
  and, for any bias, \<open>relative_scaling_2\<close> return \<open>0\<close> at position index one. In
  \<open>AttentionRelativeScaling1\<close> and \<open>AttentionRelativeScaling2\<close> the query of every head at
  position one is then zero, and the attention weights of position one are \<open>1/2\<close> on position
  zero, \<open>1/2\<close> on position one and \<open>0\<close> on the later positions, for every input of sequence
  length at least two.
\<close>

theorem position_one_attends_uniformly:
  assumes n: "2 \<le> length x"
    and m1: "input_ok m1 x" "0 < dim m1" "1 < base_seq_len m1" "j1 < heads m1"
    and m2: "input_ok m2 x" "0 < dim m2" "1 < base_seq_len_2 m2" "j2 < heads m2"
            "j2 < length (tensor_of (attn_bias m2))"
  shows "relative_scaling (arange (length x)) (real (dim m1) / real (heads m1)) (base_seq_len m1) ! 1 = Fin 0
       \<and> (\<forall>e\<in>set (scaled_queries m1 x (replicate (heads m1)
                      (relative_scaling (arange (length x)) (real (dim m1) / real (heads m1))
                         (base_seq_len m1))) ! j1 ! 1). e = Fin 0)
       \<and> relative_scaling_1_weights m1 x j1 ! 1
           = Fin (1 / 2) # Fin (1 / 2) # replicate (length x - 2) (Fin 0)
       \<and> relative_scaling_2 (arange (length x)) (real (dim m2) / real (heads m2))
            (tensor_of (attn_bias m2)) (base_seq_len_2 m2) ! j2 ! 1 = Fin 0
       \<and> (\<forall>e\<in>set (scaled_queries m2 x
                      (relative_scaling_2 (arange (length x)) (real (dim m2) / real (heads m2))
                         (tensor_of (attn_bias m2)) (base_seq_len_2 m2)) ! j2 ! 1). e = Fin 0)
       \<and> relative_scaling_2_weights m2 x j2 ! 1
           = Fin (1 / 2) # Fin (1 / 2) # replicate (length x - 2) (Fin 0)"
proof -
  have h1: "0 < real (dim m1) / real (heads m1)" using m1 by (simp add: input_ok_def)
  have h2: "0 < real (dim m2) / real (heads m2)" using m2 by (simp add: input_ok_def)
  have s1: "relative_scaling (arange (length x)) (real (dim m1) / real (heads m1)) (base_seq_len m1) ! 1 = Fin 0"
    using n h1 m1(3) by (rule relative_scaling_one)
  have s2: "relative_scaling_2 (arange (length x)) (real (dim m2) / real (heads m2))
            (tensor_of (attn_bias m2)) (base_seq_len_2 m2) ! j2 ! 1 = Fin 0"
    using n h2 m2(3) m2(5) by (rule relative_scaling_2_one)
  have w1: "relative_scaling_1_weights m1 x j1 ! 1
           = Fin (1 / 2) # Fin (1 / 2) # replicate (length x - 2) (Fin 0)"
    unfolding relative_scaling_1_weights_def Let_def
    using m1(4) n s1 by (intro uniform_row_one) (simp_all add: relative_scaling_def)
  have w2: "relative_scaling_2_weights m2 x j2 ! 1
           = Fin (1 / 2) # Fin (1 / 2) # replicate (length x - 2) (Fin 0)"
    unfolding relative_scaling_2_weights_def Let_def
    using m2(4) m2(5) n s2 by (intro uniform_row_one) (simp_all add: relative_scaling_2_def)
  have q1: "\<forall>e\<in>set (scaled_queries m1 x (replicate (heads m1)
                      (relative_scaling (arange (length x)) (real (dim m1) / real (heads m1))
                         (base_seq_len m1))) ! j1 ! 1). e = Fin 0"
    using m1(4) n s1 by (intro scaled_query_zero) (simp_all add: relative_scaling_def)
  have q2: "\<forall>e\<in>set (scaled_queries m2 x
                      (relative_scaling_2 (arange (length x)) (real (dim m2) / real (heads m2))
                         (tensor_of (attn_bias m2)) (base_seq_len_2 m2)) ! j2 ! 1). e = Fin 0"
    using m2(4) m2(5) n s2 by (intro scaled_query_zero) (simp_all add: relative_scaling_2_def)
  show ?thesis using s1 s2 w1 w2 q1 q2 by simp
qed

theorem position_one_attends_uniformly_witness:
  "relative_scaling_1_weights
     \<lparr>dim = 1, heads = 1, to_q = [[1]], to_k = [[1]], to_v = [[1]], to_out = [[1]], to_out_bias = [0],
      base_seq_len = 2048\<rparr> [[3], [5], [7]] 0 ! 1 = [Fin (1 / 2), Fin (1 / 2), Fin 0]
   \<and> relative_scaling_2_weights
     \<lparr>dim = 1, heads = 1, to_q = [[1]], to_k = [[1]], to_v = [[1]], to_out = [[1]], to_out_bias = [0],
      base_seq_len_2 = 2048, attn_bias = Buffer [3 / 2]\<rparr> [[3], [5], [7]] 0 ! 1
       = [Fin (1 / 2), Fin (1 / 2), Fin 0]"
  using position_one_attends_uniformly[of "[[3], [5], [7]]"
      "\<lparr>dim = 1, heads = 1, to_q = [[1]], to_k = [[1]], to_v = [[1]], to_out = [[1]], to_out_bias = [0],
      base_seq_len = 2048\<rparr>" 0
      "\<lparr>dim = 1, heads = 1, to_q = [[1]], to_k = [[1]], to_v = [[1]], to_out = [[1]], to_out_bias = [0],
      base_seq_len_2 = 2048, attn_bias = Buffer [3 / 2]\<rparr>" 0]
  by (simp add: input_ok_def)

section \<open>Values that are not finite\<close>

lemma fadd_NaN_right [simp]: "fadd a NaN = NaN" by (cases a) simp_all
lemma fmul_NaN_right [simp]: "fmul a NaN = NaN" by (cases a) simp_all
lemma fdiv_NaN_right [simp]: "fdiv a NaN = NaN" by (cases a) simp_all
lemma fmaximum_NaN_right [simp]: "fmaximum a NaN = NaN" by (cases a) simp_all

lemma is_finite_fadd [simp]: "is_finite (fadd a b) \<longleftrightarrow> is_finite a \<and> is_finite b"
  by (cases a; cases b) simp_all

lemma not_finite_fmul_Fin: "\<not> is_finite a \<Longrightarrow> \<not> is_finite (fmul a (Fin b))"
  by (cases a) simp_all

lemma not_finite_Fin_fmul: "\<not> is_finite a \<Longrightarrow> \<not> is_finite (fmul (Fin b) a)"
  by (cases a) simp_all

lemma fsum_Cons: "fsum (x # xs) = fadd x (fsum xs)"
  by (simp add: fsum_def)

lemma fsum_not_finite: "\<exists>x\<in>set xs. \<not> is_finite x \<Longrightarrow> \<not> is_finite (fsum xs)"
  by (induction xs) (auto simp: fsum_Cons)

lemma fsum_NaN: "NaN \<in> set xs \<Longrightarrow> fsum xs = NaN"
  by (induction xs) (auto simp: fsum_Cons)

lemma fsum_replicate_NaN: "0 < n \<Longrightarrow> fsum (replicate n NaN) = NaN"
  by (rule fsum_NaN) simp

lemma fmax_list_Cons: "fmax_list (x # xs) = fmaximum x (fmax_list xs)"
  by (simp add: fmax_list_def)

lemma fmax_list_NaN: "NaN \<in> set xs \<Longrightarrow> fmax_list xs = NaN"
  by (induction xs) (auto simp: fmax_list_Cons)

lemma fmax_list_not_finite:
  "\<forall>x\<in>set xs. \<not> is_finite x \<Longrightarrow> \<not> is_finite (fmax_list xs)"
proof (induction xs)
  case Nil then show ?case by (simp add: fmax_list_def)
next
  case (Cons x xs)
  then have "\<not> is_finite x" "\<not> is_finite (fmax_list xs)" by simp_all
  then show ?case by (cases x; cases "fmax_list xs") (simp_all add: fmax_list_Cons)
qed

lemma fmax_list_PInf: "fmax_list xs = PInf \<Longrightarrow> PInf \<in> set xs"
proof (induction xs)
  case Nil then show ?case by (simp add: fmax_list_def)
next
  case (Cons x xs)
  then show ?case
    by (cases x; cases "fmax_list xs") (simp_all add: fmax_list_Cons)
qed

lemma fmax_list_NInf: "fmax_list xs = NInf \<Longrightarrow> x \<in> set xs \<Longrightarrow> x = NInf"
proof (induction xs)
  case Nil then show ?case by simp
next
  case (Cons y ys)
  from Cons.prems(1) have "y = NInf \<and> fmax_list ys = NInf"
    by (cases y; cases "fmax_list ys") (simp_all add: fmax_list_Cons)
  then show ?case using Cons by auto
qed

text \<open>The softmax of a row without a finite entry is \<open>NaN\<close> everywhere.\<close>

lemma fsoftmax_not_finite:
  assumes ne: "xs \<noteq> []" and nf: "\<forall>x\<in>set xs. \<not> is_finite x"
  shows "fsoftmax xs = replicate (length xs) NaN"
proof -
  define m where "m = fmax_list xs"
  define es where "es = map (\<lambda>x. fexp (fsub x m)) xs"
  obtain x0 where x0: "x0 \<in> set xs" using ne by (cases xs) auto
  have "\<not> is_finite m" unfolding m_def using nf by (rule fmax_list_not_finite)
  then have "\<exists>x\<in>set xs. fexp (fsub x m) = NaN"
  proof (cases m)
    case NaN
    then show ?thesis using x0 by (auto simp: fsub_def)
  next
    case PInf
    then have "PInf \<in> set xs" unfolding m_def by (rule fmax_list_PInf)
    then show ?thesis using PInf by (auto simp: fsub_def intro!: bexI[of _ PInf])
  next
    case NInf
    then have "x0 = NInf" using x0 unfolding m_def by (rule fmax_list_NInf)
    then show ?thesis using NInf x0 by (auto simp: fsub_def intro!: bexI[of _ NInf])
  qed simp
  then have "NaN \<in> set es" unfolding es_def by force
  then have s: "fsum es = NaN" by (rule fsum_NaN)
  have "fsoftmax xs = map (\<lambda>e. fdiv e (fsum es)) es"
    by (simp add: fsoftmax_def m_def es_def Let_def)
  also have "\<dots> = replicate (length xs) NaN"
    unfolding s by (simp add: es_def map_replicate_const)
  finally show ?thesis .
qed

lemma fdot_not_finite:
  assumes "a \<noteq> []" "b \<noteq> []" "\<forall>e\<in>set a. \<not> is_finite e"
  shows "\<not> is_finite (fdot a (map Fin b))"
proof -
  obtain a0 as where a: "a = a0 # as" using assms(1) by (cases a) auto
  obtain b0 bs where b: "b = b0 # bs" using assms(2) by (cases b) auto
  have "\<not> is_finite (fmul a0 (Fin b0))" using assms(3) a by (simp add: not_finite_fmul_Fin)
  then show ?thesis
    unfolding fdot_def a b by (intro fsum_not_finite) auto
qed

lemma fdot_NaN_left:
  assumes "0 < n" "length b = n"
  shows "fdot (replicate n NaN) b = NaN"
proof -
  have "map2 fmul (replicate n NaN) b = replicate n NaN"
    using assms(2) by (intro replicate_eqI) (auto simp: set_zip)
  then show ?thesis using assms(1) by (simp add: fdot_def fsum_replicate_NaN)
qed

lemma fdot_NaN_right:
  assumes "0 < n" "length a = n"
  shows "fdot (map Fin a) (replicate n NaN) = NaN"
proof -
  have "map2 fmul (map Fin a) (replicate n NaN) = replicate n NaN"
    using assms(2) by (intro replicate_eqI) (auto simp: set_zip)
  then show ?thesis using assms(1) by (simp add: fdot_def fsum_replicate_NaN)
qed

lemma wf_moduleD:
  assumes "wf_module m"
  shows "length (to_q m) = dim m" "length (to_k m) = dim m" "length (to_v m) = dim m"
    "length (to_out m) = dim m" "length (to_out_bias m) = dim m"
    "\<And>w. w \<in> set (to_out m) \<Longrightarrow> length w = dim m"
  using assms by (auto simp: wf_module_def list_all_iff)

lemma length_linear [simp]: "length (linear W v) = length W"
  by (simp add: linear_def)

lemma heads_of_nth:
  assumes "j < heads m" "i < length x"
  shows "heads_of m W x ! j ! i
         = take (length W div heads m) (drop (j * (length W div heads m)) (linear W (x ! i)))"
  using assms by (simp add: heads_of_def split_heads_def)

lemma head_slice_fits:
  fixes h d j :: nat
  assumes "d mod h = 0" "j < h"
  shows "j * (d div h) + d div h \<le> d"
proof -
  have "Suc j * (d div h) \<le> h * (d div h)" using assms(2) by (intro mult_le_mono1) simp
  also have "\<dots> = d" using assms(1) by (metis add.right_neutral mult_div_mod_eq)
  finally show ?thesis by simp
qed

lemma length_heads_of_row:
  assumes "input_ok m x" "length W = dim m" "j < heads m" "i < length x"
  shows "length (heads_of m W x ! j ! i) = dim m div heads m"
proof -
  have "j * (dim m div heads m) + dim m div heads m \<le> dim m"
    using assms(1,3) by (intro head_slice_fits) (simp_all add: input_ok_def)
  then show ?thesis using assms by (simp add: heads_of_nth)
qed

lemma head_dim_pos:
  assumes "input_ok m x" "0 < dim m"
  shows "0 < dim m div heads m"
proof -
  have "heads m dvd dim m" "0 < heads m" using assms(1) by (auto simp: input_ok_def)
  then show ?thesis using assms(2) by (metis div_greater_zero_iff dvd_imp_le)
qed


lemma sdpa_weights_not_finite_query:
  assumes i: "i < length q" and k: "k \<noteq> []" "\<forall>r\<in>set k. r \<noteq> []"
    and q: "q ! i \<noteq> []" "\<forall>e\<in>set (q ! i). \<not> is_finite e"
  shows "sdpa_weights q (to_fl k) s ! i = replicate (length k) NaN"
proof -
  let ?row = "map (\<lambda>j. fadd (fmul (fdot (q ! i) (to_fl k ! j)) s) (causal_bias i j)) [0..<length (to_fl k)]"
  have nf: "\<forall>e\<in>set ?row. \<not> is_finite e"
  proof
    fix e assume "e \<in> set ?row"
    then obtain j where j: "j < length k"
      and e: "e = fadd (fmul (fdot (q ! i) (to_fl k ! j)) s) (causal_bias i j)" by auto
    have "k ! j \<noteq> []" using k(2) j by simp
    then have "\<not> is_finite (fdot (q ! i) (map Fin (k ! j)))"
      using q by (intro fdot_not_finite)
    then have "\<not> is_finite (fmul (fdot (q ! i) (to_fl k ! j)) s)"
      using j by (cases "fdot (q ! i) (map Fin (k ! j))"; cases s) (simp_all add: to_fl_nth)
    then show "\<not> is_finite e" unfolding e by simp
  qed
  have ne: "?row \<noteq> []" using k(1) by simp
  have "sdpa_weights q (to_fl k) s ! i = fsoftmax ?row" using i by (rule sdpa_weights_nth)
  also have "\<dots> = replicate (length ?row) NaN" using ne nf by (rule fsoftmax_not_finite)
  finally show ?thesis by simp
qed

lemma ncols_to_fl: "ncols (to_fl v) = ncols v"
  by (cases v) (simp_all add: ncols_def to_fl_def)

lemma fmatmul_NaN_row:
  assumes "i < length a" "a ! i = replicate (length v) NaN" "v \<noteq> []"
  shows "fmatmul a v ! i = replicate (ncols v) NaN"
proof -
  have "fdot (replicate (length v) NaN) (map (\<lambda>vj. vj ! c) v) = NaN" for c
    using assms(3) by (intro fdot_NaN_left) simp_all
  then show ?thesis using assms(1,2) by (simp add: fmatmul_def map_replicate_const)
qed

lemma merge_heads_nth:
  "i < n \<Longrightarrow> merge_heads n hs ! i = concat (map (\<lambda>hm. hm ! i) hs)"
  by (simp add: merge_heads_def)

lemma concat_replicate_const: "concat (map (\<lambda>j. replicate d a) xs) = replicate (length xs * d) a"
  by (induction xs) (simp_all add: replicate_add)

lemma flinear_NaN:
  assumes "0 < d" "length W = d" "length b = d" "\<And>w. w \<in> set W \<Longrightarrow> length w = d"
  shows "flinear W b (replicate d NaN) = replicate d NaN"
proof -
  have "fadd (fdot (map Fin w) (replicate d NaN)) (Fin bi) = NaN" if "w \<in> set W" for w bi
    using assms(1,4) that by (simp add: fdot_NaN_right)
  then have "map2 (\<lambda>w bi. fadd (fdot (map Fin w) (replicate d NaN)) (Fin bi)) W b
             = replicate d NaN"
    using assms(2,3) by (intro replicate_eqI) (auto simp: set_zip)
  then show ?thesis by (simp add: flinear_def)
qed

lemma project_out_NaN_row:
  assumes wf: "wf_module m" and ok: "input_ok m x" and d: "0 < dim m" and i: "i < n"
    and out: "length out = heads m"
        "\<And>j. j < heads m \<Longrightarrow> out ! j ! i = replicate (dim m div heads m) NaN"
  shows "project_out m n out ! i = replicate (dim m) NaN"
proof -
  have "map (\<lambda>hm. hm ! i) out = map (\<lambda>j. replicate (dim m div heads m) NaN) [0..<heads m]"
    using out by (intro nth_equalityI) simp_all
  then have "merge_heads n out ! i = replicate (heads m * (dim m div heads m)) NaN"
    using i by (simp add: merge_heads_nth concat_replicate_const)
  moreover have "heads m * (dim m div heads m) = dim m"
    using ok by (metis add.right_neutral input_ok_def mult_div_mod_eq)
  ultimately have "merge_heads n out ! i = replicate (dim m) NaN" by simp
  then show ?thesis
    using i flinear_NaN[OF d wf_moduleD(4)[OF wf] wf_moduleD(5)[OF wf] wf_moduleD(6)[OF wf]]
    by (simp add: project_out_def merge_heads_def)
qed

text \<open>
  A query scale that is not finite makes the whole output row \<open>NaN\<close>, whatever the input.
\<close>

lemma scaled_forward_NaN_row:
  assumes wf: "wf_module m" and ok: "input_ok m x" and d: "0 < dim m" and i: "i < length x"
    and sc: "\<And>j. j < heads m \<Longrightarrow> length (scales ! j) = length x \<and> \<not> is_finite (scales ! j ! i)"
  shows "\<exists>out. scaled_forward m x scales = Inr out \<and> out ! i = replicate (dim m) NaN"
proof -
  let ?dh = "dim m div heads m"
  let ?w = "\<lambda>j. sdpa_weights (scaled_queries m x scales ! j) (to_fl (heads_of m (to_k m) x ! j)) (Fin 1)"
  let ?out = "map (\<lambda>j. fmatmul (?w j) (to_fl (heads_of m (to_v m) x ! j))) [0..<heads m]"
  have dh: "0 < ?dh" using ok d by (rule head_dim_pos)
  have x: "x \<noteq> []" using i by auto
  have row: "?out ! j ! i = replicate ?dh NaN" if j: "j < heads m" for j
  proof -
    let ?q = "scaled_queries m x scales ! j"
    let ?k = "heads_of m (to_k m) x ! j"
    let ?v = "heads_of m (to_v m) x ! j"
    have lq: "length ?q = length x" using j sc by (intro length_scaled_queries_nth) simp_all
    have lqi: "length (heads_of m (to_q m) x ! j ! i) = ?dh"
      using ok wf_moduleD(1)[OF wf] j i by (rule length_heads_of_row)
    have qi: "?q ! i = map (\<lambda>e. fmul e (scales ! j ! i)) (map Fin (heads_of m (to_q m) x ! j ! i))"
      using j i sc by (intro scaled_queries_nth) simp_all
    have qne: "?q ! i \<noteq> []" using qi lqi dh by auto
    have qnf: "\<forall>e\<in>set (?q ! i). \<not> is_finite e"
      unfolding qi using sc[OF j] by (auto simp: not_finite_Fin_fmul)
    have kne: "?k \<noteq> []" using j x by (simp add: heads_of_def split_heads_def)
    have krows: "\<forall>r\<in>set ?k. r \<noteq> []"
    proof
      fix r assume "r \<in> set ?k"
      then obtain i' where i': "i' < length x" and r: "r = ?k ! i'"
        using j by (auto simp: in_set_conv_nth)
      have "length r = ?dh" unfolding r
        using ok wf_moduleD(2)[OF wf] j i' by (rule length_heads_of_row)
      then show "r \<noteq> []" using dh by auto
    qed
    have w: "?w j ! i = replicate (length ?k) NaN"
      using lq i kne krows qne qnf by (intro sdpa_weights_not_finite_query) simp_all
    have lv: "length ?v = length x" "length ?k = length x" using j by simp_all
    have "?v \<noteq> []" using lv(1) x by auto
    then have vne: "to_fl ?v \<noteq> []" by (simp add: to_fl_def)
    have "ncols ?v = length (?v ! 0)" using lv x by (cases ?v) (simp_all add: ncols_def)
    also have "\<dots> = ?dh"
      using ok wf_moduleD(3)[OF wf] j x by (intro length_heads_of_row) simp_all
    finally have nc: "ncols (to_fl ?v) = ?dh" by (simp add: ncols_to_fl)
    have "fmatmul (?w j) (to_fl ?v) ! i = replicate (ncols (to_fl ?v)) NaN"
      using w lv i lq vne by (intro fmatmul_NaN_row) (simp_all add: sdpa_weights_def)
    then show ?thesis using j nc by simp
  qed
  have "project_out m (length x) ?out ! i = replicate (dim m) NaN"
    using wf ok d i row by (intro project_out_NaN_row) simp_all
  then show ?thesis by (simp add: scaled_forward_weights)
qed

section \<open>The logarithm of position zero\<close>







section \<open>Learned scaling at its initial values\<close>

lemma upt_2: "[0..<2] = [0, 1]" by (simp add: upt_conv_Cons)

text \<open>
  With \<open>alphas = 0\<close>, as the constructor leaves them, the product \<open>alphas * log 0\<close> is
  \<open>0 * -inf = NaN\<close>: the output row at position zero is \<open>NaN\<close> for every non-empty input.
\<close>

lemma learned_scaling_init_NaN_row:
  assumes wf: "wf_module base" and ok: "input_ok base x" and d: "0 < dim base"
    and n: "0 < length x" and init: "learned_scaling_init base = Inr m"
  shows "\<exists>out. learned_scaling_forward m x = Inr out \<and> out ! 0 = replicate (dim base) NaN"
proof -
  have h: "0 < heads base" using ok by (simp add: input_ok_def)
  have m: "m = attention_base.extend base
                 (attention_learned_scaling.fields (replicate (heads base) 0) (replicate (heads base) 0)
                    (real (dim base) / real (heads base)) (sqrt (real (dim base) / real (heads base))))"
    using init h by (simp add: learned_scaling_init_def Let_def)
  have eq: "dim m = dim base" "heads m = heads base" "wf_module m" "input_ok m x"
    "alphas m = replicate (heads base) 0" "betas m = replicate (heads base) 0"
    using wf ok unfolding m
    by (simp_all add: attention_base.extend_def attention_learned_scaling.fields_def
        wf_module_def input_ok_def)
  have sc: "length (create_scaling m (arange (length x)) ! j) = length x
            \<and> \<not> is_finite (create_scaling m (arange (length x)) ! j ! 0)"
    if "j < heads m" for j
    using that n eq(2,5,6)
    by (simp add: create_scaling_def arange_def upt_conv_Cons Let_def)
  have "\<exists>out. scaled_forward m x (create_scaling m (arange (length x))) = Inr out
              \<and> out ! 0 = replicate (dim m) NaN"
    using eq(3,4) d n sc by (intro scaled_forward_NaN_row) (simp_all add: eq(1))
  then show ?thesis using eq(1,4) by (simp add: learned_scaling_forward_def Let_def)
qed

text \<open>
  Claim C5. \<open>AttentionLearnedScaling\<close> with \<open>alphas = 0\<close> and \<open>betas = 0\<close> is claimed to return
  the output of \<open>AttentionBase\<close> with the same projection weights on every input. On the module
  with \<open>dim = 1\<close>, one head and all weights \<open>1\<close>, and the input of two tokens \<open>3\<close> and \<open>5\<close>,
  \<open>create_scaling\<close> is \<open>NaN\<close> at position zero and \<open>1 / sqrt head_dim = 1\<close> at position one; the
  two outputs agree at position one and differ at position zero, where the base module
  returns \<open>3\<close> and the learned scaling returns \<open>NaN\<close>.
\<close>

theorem learned_scaling_at_init_is_not_base:
  "learned_scaling_init
     \<lparr>dim = 1, heads = 1, to_q = [[1]], to_k = [[1]], to_v = [[1]], to_out = [[1]], to_out_bias = [0]\<rparr>
     = Inr (attention_base.extend
             \<lparr>dim = 1, heads = 1, to_q = [[1]], to_k = [[1]], to_v = [[1]], to_out = [[1]],
              to_out_bias = [0]\<rparr> (attention_learned_scaling.fields [0] [0] 1 1))
   \<and> create_scaling
       (attention_base.extend
             \<lparr>dim = 1, heads = 1, to_q = [[1]], to_k = [[1]], to_v = [[1]], to_out = [[1]],
              to_out_bias = [0]\<rparr> (attention_learned_scaling.fields [0] [0] 1 1))
       (arange 2) = [[NaN, Fin 1]]
   \<and> base_forward
       \<lparr>dim = 1, heads = 1, to_q = [[1]], to_k = [[1]], to_v = [[1]], to_out = [[1]], to_out_bias = [0]\<rparr>
       [[3], [5]]
     = Inr [[Fin 3], [Fin (exp (- 10) * 3 / (exp (- 10) + 1) + 5 / (exp (- 10) + 1))]]
   \<and> learned_scaling_forward
       (attention_base.extend
             \<lparr>dim = 1, heads = 1, to_q = [[1]], to_k = [[1]], to_v = [[1]], to_out = [[1]],
              to_out_bias = [0]\<rparr> (attention_learned_scaling.fields [0] [0] 1 1))
       [[3], [5]]
     = Inr [[NaN], [Fin (exp (- 10) * 3 / (exp (- 10) + 1) + 5 / (exp (- 10) + 1))]]"
proof -
  have "0 < exp (- 10 :: real) + 1" by (simp add: add_pos_pos)
  then have nz: "exp (- 10 :: real) + 1 \<noteq> 0" by simp
  have i: "learned_scaling_init
     \<lparr>dim = 1, heads = 1, to_q = [[1]], to_k = [[1]], to_v = [[1]], to_out = [[1]], to_out_bias = [0]\<rparr>
     = Inr (attention_base.extend
             \<lparr>dim = 1, heads = 1, to_q = [[1]], to_k = [[1]], to_v = [[1]], to_out = [[1]],
              to_out_bias = [0]\<rparr> (attention_learned_scaling.fields [0] [0] 1 1))"
    by (simp add: learned_scaling_init_def Let_def)
  have c: "create_scaling
       (attention_base.extend
             \<lparr>dim = 1, heads = 1, to_q = [[1]], to_k = [[1]], to_v = [[1]], to_out = [[1]],
              to_out_bias = [0]\<rparr> (attention_learned_scaling.fields [0] [0] 1 1))
       (arange 2) = [[NaN, Fin 1]]"
    by (simp add: create_scaling_def arange_def upt_2 Let_def attention_base.extend_def
        attention_learned_scaling.fields_def)
  have b: "base_forward
       \<lparr>dim = 1, heads = 1, to_q = [[1]], to_k = [[1]], to_v = [[1]], to_out = [[1]], to_out_bias = [0]\<rparr>
       [[3], [5]]
     = Inr [[Fin 3], [Fin (exp (- 10) * 3 / (exp (- 10) + 1) + 5 / (exp (- 10) + 1))]]"
    using nz
    by (simp add: base_forward_def input_ok_def heads_of_def split_heads_def linear_def dot_def
      sdpa_def sdpa_weights_def fsoftmax_def fmax_list_def fsum_def fdot_def fsub_def causal_bias_def
      default_scale_def to_fl_def fmatmul_def ncols_def project_out_def merge_heads_def flinear_def
      Let_def upt_2)
  have l: "learned_scaling_forward
       (attention_base.extend
             \<lparr>dim = 1, heads = 1, to_q = [[1]], to_k = [[1]], to_v = [[1]], to_out = [[1]],
              to_out_bias = [0]\<rparr> (attention_learned_scaling.fields [0] [0] 1 1))
       [[3], [5]]
     = Inr [[NaN], [Fin (exp (- 10) * 3 / (exp (- 10) + 1) + 5 / (exp (- 10) + 1))]]"
    using nz
    by (simp add: learned_scaling_forward_def scaled_forward_def scaled_queries_def create_scaling_def
      arange_def input_ok_def heads_of_def split_heads_def linear_def dot_def
      sdpa_def sdpa_weights_def fsoftmax_def fmax_list_def fsum_def fdot_def fsub_def causal_bias_def
      to_fl_def fmatmul_def ncols_def project_out_def merge_heads_def flinear_def
      Let_def attention_base.extend_def attention_learned_scaling.fields_def upt_2)
  show ?thesis using i c b l by simp
qed

end
